theory Spec2Isabelle
  imports Main "HOL-Library.Word"
begin

section \<open>Machine types\<close>

text \<open>
  The header \<^verbatim>\<open>include/mm_file/mm_file.hpp\<close> is modelled for an LP64 target:
  \<^verbatim>\<open>size_t\<close> and pointers are 64-bit words, whose arithmetic wraps. The element
  type \<^verbatim>\<open>T\<close> is a POD, so a value of \<^verbatim>\<open>T\<close> is its object representation: a list
  of \<^verbatim>\<open>sizeof(T)\<close> bytes. \<^verbatim>\<open>sizeof(T)\<close> is the parameter \<open>sz\<close> of every function
  whose source mentions it.
\<close>

type_synonym byte = "8 word"
type_synonym size_t = "64 word"
type_synonym addr = "64 word"
type_synonym path = string

abbreviation (input) nullptr :: addr where
  "nullptr \<equiv> 0"

abbreviation (input) MAP_FAILED :: addr where
  "MAP_FAILED \<equiv> - 1"

text \<open>Every failure of the source is \<^verbatim>\<open>throw std::runtime_error(msg)\<close>.\<close>

datatype error = runtime_error string

text \<open>Namespace \<^verbatim>\<open>advice\<close>; the values are those of \<^verbatim>\<open>POSIX_MADV_*\<close> on Linux.\<close>

definition advice_normal :: int where
  "advice_normal = 0"

definition advice_random :: int where
  "advice_random = 1"

definition advice_sequential :: int where
  "advice_sequential = 2"

section \<open>The POSIX environment\<close>

text \<open>
  The views are built on \<^verbatim>\<open>open\<close>, \<^verbatim>\<open>fstat\<close>, \<^verbatim>\<open>ftruncate\<close>, \<^verbatim>\<open>mmap\<close>,
  \<^verbatim>\<open>posix_madvise\<close>, \<^verbatim>\<open>munmap\<close> and \<^verbatim>\<open>close\<close>. The kernel state they act on:
  the files (path to contents), the descriptor table with the limit on descriptors of
  the process, the live mappings (most recent first) and the log of the advice calls
  received. A mapping is \<^verbatim>\<open>MAP_SHARED\<close>: the
  mapped bytes are the file's bytes.
\<close>

record region =
  r_base :: addr
  r_len :: nat
  r_write :: bool
  r_file :: path

record os_state =
  files :: "path \<rightharpoonup> byte list"
  fd_table :: "int \<rightharpoonup> path"
  fd_limit :: nat
  regions :: "region list"
  advised :: "(addr \<times> size_t \<times> int) list"

text \<open>
  What the kernel decides during one operation of a view, beyond what the state
  determines: whether each call is granted, and the address \<^verbatim>\<open>mmap\<close> picks.
\<close>

record env =
  open_ok :: bool
  fstat_ok :: bool
  ftruncate_ok :: bool
  mmap_ok :: bool
  mmap_addr :: addr
  madvise_ret :: int
  munmap_ok :: bool

text \<open>
  A new descriptor is the lowest one not in use; when every descriptor below the limit
  is in use there is none (EMFILE): -1.
\<close>

definition lowest_free_fd :: "(int \<rightharpoonup> path) \<Rightarrow> nat \<Rightarrow> int" where
  "lowest_free_fd tbl limit =
     (case find (\<lambda>k. tbl (int k) = None) [0..<limit] of
        None \<Rightarrow> - 1
      | Some k \<Rightarrow> int k)"

text \<open>\<^verbatim>\<open>open(path, O_RDONLY)\<close>: the file must exist; the result is a descriptor or -1.\<close>

definition sys_open_rdonly :: "env \<Rightarrow> path \<Rightarrow> os_state \<Rightarrow> int \<times> os_state" where
  "sys_open_rdonly e p os =
     (if open_ok e \<and> files os p \<noteq> None \<and> lowest_free_fd (fd_table os) (fd_limit os) \<noteq> - 1
      then (lowest_free_fd (fd_table os) (fd_limit os),
            os\<lparr>fd_table := (fd_table os)(lowest_free_fd (fd_table os) (fd_limit os) \<mapsto> p)\<rparr>)
      else (- 1, os))"

text \<open>\<^verbatim>\<open>open(path, O_RDWR | O_CREAT | O_TRUNC, 0600)\<close>: creates or empties the file.\<close>

definition sys_open_creat_trunc :: "env \<Rightarrow> path \<Rightarrow> os_state \<Rightarrow> int \<times> os_state" where
  "sys_open_creat_trunc e p os =
     (if open_ok e \<and> lowest_free_fd (fd_table os) (fd_limit os) \<noteq> - 1
      then (lowest_free_fd (fd_table os) (fd_limit os),
            os\<lparr>files := (files os)(p \<mapsto> []),
               fd_table := (fd_table os)(lowest_free_fd (fd_table os) (fd_limit os) \<mapsto> p)\<rparr>)
      else (- 1, os))"

text \<open>\<^verbatim>\<open>fstat(fd, &fs)\<close>: \<open>None\<close> is the return value -1, \<open>Some n\<close> is \<^verbatim>\<open>fs.st_size\<close>.\<close>

definition sys_fstat :: "env \<Rightarrow> int \<Rightarrow> os_state \<Rightarrow> int option" where
  "sys_fstat e fd os =
     (if fstat_ok e
      then (case fd_table os fd of
              None \<Rightarrow> None
            | Some p \<Rightarrow> (case files os p of
                          None \<Rightarrow> None
                        | Some bs \<Rightarrow> Some (int (length bs))))
      else None)"

text \<open>
  \<^verbatim>\<open>ftruncate(fd, length)\<close>: the length arrives as a signed \<^verbatim>\<open>off_t\<close>, a negative one
  is refused; the file is cut or extended with zero bytes.
\<close>

definition sys_ftruncate :: "env \<Rightarrow> int \<Rightarrow> size_t \<Rightarrow> os_state \<Rightarrow> int \<times> os_state" where
  "sys_ftruncate e fd n os =
     (if ftruncate_ok e \<and> 0 \<le> sint n
      then (case fd_table os fd of
              None \<Rightarrow> (- 1, os)
            | Some p \<Rightarrow> (case files os p of
                          None \<Rightarrow> (- 1, os)
                        | Some bs \<Rightarrow>
                            (0, os\<lparr>files := (files os)
                                   (p \<mapsto> take (unat n) bs @ replicate (unat n - length bs) 0)\<rparr>)))
      else (- 1, os))"

text \<open>
  \<^verbatim>\<open>mmap(NULL, length, prot, MAP_SHARED, fd, 0)\<close>: a zero length is refused (EINVAL);
  a granted mapping starts at a non-null address and does not wrap around the
  address space.
\<close>

definition sys_mmap :: "env \<Rightarrow> size_t \<Rightarrow> bool \<Rightarrow> int \<Rightarrow> os_state \<Rightarrow> addr \<times> os_state" where
  "sys_mmap e n w fd os =
     (if mmap_ok e \<and> n \<noteq> 0 \<and> mmap_addr e \<noteq> 0 \<and> unat (mmap_addr e) + unat n < 2 ^ 64
      then (case fd_table os fd of
              None \<Rightarrow> (MAP_FAILED, os)
            | Some p \<Rightarrow>
                (mmap_addr e,
                 os\<lparr>regions := \<lparr>r_base = mmap_addr e, r_len = unat n,
                                  r_write = w, r_file = p\<rparr> # regions os\<rparr>))
      else (MAP_FAILED, os))"

text \<open>\<^verbatim>\<open>posix_madvise(addr, len, advice)\<close>: returns 0 or an error number.\<close>

definition sys_posix_madvise ::
  "env \<Rightarrow> addr \<Rightarrow> size_t \<Rightarrow> int \<Rightarrow> os_state \<Rightarrow> int \<times> os_state" where
  "sys_posix_madvise e a n adv os =
     (madvise_ret e, os\<lparr>advised := (a, n, adv) # advised os\<rparr>)"

text \<open>\<^verbatim>\<open>munmap(addr, length)\<close>: a zero length is refused (EINVAL).\<close>

definition sys_munmap :: "env \<Rightarrow> addr \<Rightarrow> size_t \<Rightarrow> os_state \<Rightarrow> int \<times> os_state" where
  "sys_munmap e a n os =
     (if munmap_ok e \<and> n \<noteq> 0
      then (0, os\<lparr>regions := filter (\<lambda>r. r_base r \<noteq> a) (regions os)\<rparr>)
      else (- 1, os))"

text \<open>\<^verbatim>\<open>close(fd)\<close>; the source ignores its result.\<close>

definition sys_close :: "int \<Rightarrow> os_state \<Rightarrow> os_state" where
  "sys_close fd os = os\<lparr>fd_table := (fd_table os)(fd := None)\<rparr>"

subsection \<open>Access to mapped memory\<close>

text \<open>
  An access of \<open>k\<close> bytes at address \<open>a\<close> goes to the most recent mapping that
  covers it. Outside every mapping it faults (SIGSEGV), beyond the end of the backing
  file it faults (SIGBUS), and so does a store to a mapping without \<^verbatim>\<open>PROT_WRITE\<close>:
  \<open>None\<close>. The bounds are exact to the byte, where a kernel rounds them up to the
  page: an access that succeeds here succeeds there, on the same bytes.
\<close>

definition covers :: "addr \<Rightarrow> nat \<Rightarrow> region \<Rightarrow> bool" where
  "covers a k r = (unat (r_base r) \<le> unat a \<and> unat a + k \<le> unat (r_base r) + r_len r)"

definition load :: "nat \<Rightarrow> os_state \<Rightarrow> addr \<Rightarrow> byte list option" where
  "load k os a =
     (case find (covers a k) (regions os) of
        None \<Rightarrow> None
      | Some r \<Rightarrow>
          (case files os (r_file r) of
             None \<Rightarrow> None
           | Some bs \<Rightarrow>
               (if unat a - unat (r_base r) + k \<le> length bs
                then Some (take k (drop (unat a - unat (r_base r)) bs))
                else None)))"

definition store :: "os_state \<Rightarrow> addr \<Rightarrow> byte list \<Rightarrow> os_state option" where
  "store os a x =
     (case find (covers a (length x)) (regions os) of
        None \<Rightarrow> None
      | Some r \<Rightarrow>
          (if r_write r
           then (case files os (r_file r) of
                   None \<Rightarrow> None
                 | Some bs \<Rightarrow>
                     (if unat a - unat (r_base r) + length x \<le> length bs
                      then Some (os\<lparr>files := (files os)
                                   (r_file r \<mapsto> take (unat a - unat (r_base r)) bs @ x @
                                      drop (unat a - unat (r_base r) + length x) bs)\<rparr>)
                      else None))
           else None))"

section \<open>The views\<close>

text \<open>
  \<^verbatim>\<open>file_source<T>\<close> and \<^verbatim>\<open>file_sink<T>\<close> have the same three members
  (\<^verbatim>\<open>int m_fd; size_t m_size; T* m_data\<close>, the pointer to const in the source):
  one record serves both. A member function takes the kernel state and the object and
  returns both with its result; a \<^verbatim>\<open>throw\<close> is the result \<open>Inl\<close>, and the object is
  returned as the throw leaves it.
\<close>

record mm_view =
  m_fd :: int
  m_size :: size_t
  m_data :: addr

type_synonym 'a outcome = "(error + 'a) \<times> os_state \<times> mm_view"

record iterator =
  m_ptr :: addr

subsection \<open>\<^verbatim>\<open>file_source\<close>\<close>

definition source_init :: "mm_view \<Rightarrow> mm_view" where
  "source_init v = v\<lparr>m_fd := - 1, m_size := 0, m_data := nullptr\<rparr>"

definition source_is_open :: "mm_view \<Rightarrow> bool" where
  "source_is_open v = (m_fd v \<noteq> - 1)"

definition source_open ::
  "size_t \<Rightarrow> env \<Rightarrow> path \<Rightarrow> int \<Rightarrow> os_state \<Rightarrow> mm_view \<Rightarrow> unit outcome" where
  "source_open sz e p adv os v =
     (let (fd, os1) = sys_open_rdonly e p os;
          v1 = v\<lparr>m_fd := fd\<rparr>
      in if m_fd v1 = - 1 then (Inl (runtime_error ''cannot open file''), os1, v1)
         else (case sys_fstat e (m_fd v1) os1 of
                 None \<Rightarrow> (Inl (runtime_error ''cannot stat file''), os1, v1)
               | Some st_size \<Rightarrow>
                   (let v2 = v1\<lparr>m_size := word_of_int st_size\<rparr>;
                        (a, os2) = sys_mmap e (m_size v2) False (m_fd v2) os1;
                        v3 = v2\<lparr>m_data := a\<rparr>
                    in if m_data v3 = MAP_FAILED
                       then (Inl (runtime_error ''mmap failed''), os2, v3)
                       else (let (r, os3) =
                                   sys_posix_madvise e (m_data v3) (m_size v3 div sz) adv os2
                             in if r \<noteq> 0
                                then (Inl (runtime_error ''madvise failed''), os3, v3)
                                else (Inr (), os3, v3)))))"

definition source_close :: "env \<Rightarrow> os_state \<Rightarrow> mm_view \<Rightarrow> unit outcome" where
  "source_close e os v =
     (if source_is_open v
      then (let (r, os1) = sys_munmap e (m_data v) (m_size v) os
            in if r = - 1
               then (Inl (runtime_error ''munmap failed when closing file_source''), os1, v)
               else (Inr (), sys_close (m_fd v) os1, source_init v))
      else (Inr (), os, v))"

definition source_bytes :: "mm_view \<Rightarrow> size_t" where
  "source_bytes v = m_size v"

definition source_size :: "size_t \<Rightarrow> mm_view \<Rightarrow> size_t" where
  "source_size sz v = m_size v div sz"

definition source_data :: "mm_view \<Rightarrow> addr" where
  "source_data v = m_data v"

text \<open>The default constructor: the storage of a new object is indeterminate, \<open>raw\<close>.\<close>

definition file_source :: "mm_view \<Rightarrow> mm_view" where
  "file_source raw = source_init raw"

text \<open>
  \<^verbatim>\<open>file_source::iterator\<close>. Adding an offset to a \<^verbatim>\<open>T const*\<close> moves the address by
  \<^verbatim>\<open>offset * sizeof(T)\<close>; \<^verbatim>\<open>operator*\<close> returns a \<^verbatim>\<open>T\<close> by value.
\<close>

definition source_iterator :: "size_t \<Rightarrow> addr \<Rightarrow> size_t \<Rightarrow> iterator" where
  "source_iterator sz a offset = \<lparr>m_ptr = a + offset * sz\<rparr>"

definition source_deref :: "size_t \<Rightarrow> os_state \<Rightarrow> iterator \<Rightarrow> byte list option" where
  "source_deref sz os it = load (unat sz) os (m_ptr it)"

definition source_incr :: "size_t \<Rightarrow> iterator \<Rightarrow> iterator" where
  "source_incr sz it = it\<lparr>m_ptr := m_ptr it + sz\<rparr>"

definition source_iter_eq :: "iterator \<Rightarrow> iterator \<Rightarrow> bool" where
  "source_iter_eq it rhs = (m_ptr it = m_ptr rhs)"

definition source_iter_neq :: "iterator \<Rightarrow> iterator \<Rightarrow> bool" where
  "source_iter_neq it rhs = (\<not> source_iter_eq it rhs)"

definition source_begin :: "size_t \<Rightarrow> mm_view \<Rightarrow> iterator" where
  "source_begin sz v = source_iterator sz (m_data v) 0"

definition source_end :: "size_t \<Rightarrow> mm_view \<Rightarrow> iterator" where
  "source_end sz v = source_iterator sz (m_data v) (source_size sz v)"

subsection \<open>\<^verbatim>\<open>file_sink\<close>\<close>

definition sink_init :: "mm_view \<Rightarrow> mm_view" where
  "sink_init v = v\<lparr>m_fd := - 1, m_size := 0, m_data := nullptr\<rparr>"

definition sink_is_open :: "mm_view \<Rightarrow> bool" where
  "sink_is_open v = (m_fd v \<noteq> - 1)"

text \<open>The result of \<^verbatim>\<open>ftruncate\<close> is not looked at.\<close>

definition sink_open ::
  "size_t \<Rightarrow> env \<Rightarrow> path \<Rightarrow> size_t \<Rightarrow> os_state \<Rightarrow> mm_view \<Rightarrow> unit outcome" where
  "sink_open sz e p n os v =
     (let (fd, os1) = sys_open_creat_trunc e p os;
          v1 = v\<lparr>m_fd := fd\<rparr>
      in if m_fd v1 = - 1 then (Inl (runtime_error ''cannot open file''), os1, v1)
         else (let v2 = v1\<lparr>m_size := n * sz\<rparr>;
                   (r, os2) = sys_ftruncate e (m_fd v2) (m_size v2) os1;
                   (a, os3) = sys_mmap e (m_size v2) True (m_fd v2) os2;
                   v3 = v2\<lparr>m_data := a\<rparr>
               in if m_data v3 = MAP_FAILED
                  then (Inl (runtime_error ''mmap failed''), os3, v3)
                  else (Inr (), os3, v3)))"

definition sink_close :: "env \<Rightarrow> os_state \<Rightarrow> mm_view \<Rightarrow> unit outcome" where
  "sink_close e os v =
     (if sink_is_open v
      then (let (r, os1) = sys_munmap e (m_data v) (m_size v) os
            in if r = - 1
               then (Inl (runtime_error ''munmap failed when closing file_sink''), os1, v)
               else (Inr (), sys_close (m_fd v) os1, sink_init v))
      else (Inr (), os, v))"

definition sink_bytes :: "mm_view \<Rightarrow> size_t" where
  "sink_bytes v = m_size v"

definition sink_size :: "size_t \<Rightarrow> mm_view \<Rightarrow> size_t" where
  "sink_size sz v = m_size v div sz"

definition sink_data :: "mm_view \<Rightarrow> addr" where
  "sink_data v = m_data v"

definition file_sink :: "mm_view \<Rightarrow> mm_view" where
  "file_sink raw = sink_init raw"

text \<open>
  \<^verbatim>\<open>file_sink::iterator\<close> holds a \<^verbatim>\<open>T*\<close>, and its \<^verbatim>\<open>operator*\<close> is declared
  \<^verbatim>\<open>T operator*()\<close> as well: the result is a \<^verbatim>\<open>T\<close> by value.
\<close>

definition sink_iterator :: "size_t \<Rightarrow> addr \<Rightarrow> size_t \<Rightarrow> iterator" where
  "sink_iterator sz a offset = \<lparr>m_ptr = a + offset * sz\<rparr>"

definition sink_deref :: "size_t \<Rightarrow> os_state \<Rightarrow> iterator \<Rightarrow> byte list option" where
  "sink_deref sz os it = load (unat sz) os (m_ptr it)"

definition sink_incr :: "size_t \<Rightarrow> iterator \<Rightarrow> iterator" where
  "sink_incr sz it = it\<lparr>m_ptr := m_ptr it + sz\<rparr>"

definition sink_iter_eq :: "iterator \<Rightarrow> iterator \<Rightarrow> bool" where
  "sink_iter_eq it rhs = (m_ptr it = m_ptr rhs)"

definition sink_iter_neq :: "iterator \<Rightarrow> iterator \<Rightarrow> bool" where
  "sink_iter_neq it rhs = (\<not> sink_iter_eq it rhs)"

definition sink_begin :: "size_t \<Rightarrow> mm_view \<Rightarrow> iterator" where
  "sink_begin sz v = sink_iterator sz (m_data v) 0"

definition sink_end :: "size_t \<Rightarrow> mm_view \<Rightarrow> iterator" where
  "sink_end sz v = sink_iterator sz (m_data v) (sink_size sz v)"

section \<open>Client code\<close>

text \<open>
  The loop \<^verbatim>\<open>for (auto it = v.begin(); it != v.end(); ++it) out.push_back(*it);\<close>
  over either view. It need not end for arbitrary iterators, and a dereference can
  fault: both are the result \<open>None\<close>.
\<close>

partial_function (option) source_iterate ::
  "size_t \<Rightarrow> os_state \<Rightarrow> iterator \<Rightarrow> iterator \<Rightarrow> byte list list option" where
  "source_iterate sz os it e =
     (if source_iter_neq it e
      then Option.bind (source_deref sz os it)
             (\<lambda>x. Option.bind (source_iterate sz os (source_incr sz it) e)
                    (\<lambda>xs. Some (x # xs)))
      else Some [])"

partial_function (option) sink_iterate ::
  "size_t \<Rightarrow> os_state \<Rightarrow> iterator \<Rightarrow> iterator \<Rightarrow> byte list list option" where
  "sink_iterate sz os it e =
     (if sink_iter_neq it e
      then Option.bind (sink_deref sz os it)
             (\<lambda>x. Option.bind (sink_iterate sz os (sink_incr sz it) e)
                    (\<lambda>xs. Some (x # xs)))
      else Some [])"

text \<open>
  The loop \<^verbatim>\<open>T* p = sink.data(); for (x : xs) *p++ = x;\<close>, which writes the values
  in order through the mapping of a write view.
\<close>

fun write_elems :: "size_t \<Rightarrow> os_state \<Rightarrow> addr \<Rightarrow> byte list list \<Rightarrow> os_state option" where
  "write_elems sz os p [] = Some os"
| "write_elems sz os p (x # xs) =
     (case store os p x of
        None \<Rightarrow> None
      | Some os' \<Rightarrow> write_elems sz os' (p + sz) xs)"

text \<open>
  The statement \<^verbatim>\<open>*it = x;\<close> on an iterator of a write view, for a class type
  \<^verbatim>\<open>T\<close>: \<^verbatim>\<open>operator*\<close> reads the element into a temporary \<^verbatim>\<open>T\<close>, the assignment
  changes the temporary, and the temporary is dropped. For a scalar \<^verbatim>\<open>T\<close> the
  statement does not compile.
\<close>

definition sink_assign_deref ::
  "size_t \<Rightarrow> os_state \<Rightarrow> iterator \<Rightarrow> byte list \<Rightarrow> os_state option" where
  "sink_assign_deref sz os it x =
     (case sink_deref sz os it of
        None \<Rightarrow> None
      | Some tmp \<Rightarrow> Some os)"

text \<open>
  The loop \<^verbatim>\<open>auto it = sink.begin(); for (x : xs) { *it = x; ++it; }\<close>, which assigns
  the values in order through the iterator of a write view; the result is the state and
  the iterator after the loop.
\<close>

fun sink_write_iter ::
  "size_t \<Rightarrow> os_state \<Rightarrow> iterator \<Rightarrow> byte list list \<Rightarrow> (os_state \<times> iterator) option" where
  "sink_write_iter sz os it [] = Some (os, it)"
| "sink_write_iter sz os it (x # xs) =
     (case sink_assign_deref sz os it x of
        None \<Rightarrow> None
      | Some os' \<Rightarrow> sink_write_iter sz os' (sink_incr sz it) xs)"

section \<open>States and examples\<close>

text \<open>What the accessors of a closed view return.\<close>

definition source_closed :: "size_t \<Rightarrow> mm_view \<Rightarrow> bool" where
  "source_closed sz v =
     (\<not> source_is_open v \<and> source_bytes v = 0 \<and> source_size sz v = 0 \<and>
      source_data v = nullptr)"

definition sink_closed :: "size_t \<Rightarrow> mm_view \<Rightarrow> bool" where
  "sink_closed sz v =
     (\<not> sink_is_open v \<and> sink_bytes v = 0 \<and> sink_size sz v = 0 \<and>
      sink_data v = nullptr)"

text \<open>The range of a view is empty: \<^verbatim>\<open>begin() == end()\<close>, and the loop visits nothing.\<close>

definition source_no_elements :: "size_t \<Rightarrow> os_state \<Rightarrow> mm_view \<Rightarrow> bool" where
  "source_no_elements sz os v =
     (source_iter_eq (source_begin sz v) (source_end sz v) \<and>
      source_iterate sz os (source_begin sz v) (source_end sz v) = Some [])"

definition sink_no_elements :: "size_t \<Rightarrow> os_state \<Rightarrow> mm_view \<Rightarrow> bool" where
  "sink_no_elements sz os v =
     (sink_iter_eq (sink_begin sz v) (sink_end sz v) \<and>
      sink_iterate sz os (sink_begin sz v) (sink_end sz v) = Some [])"

text \<open>
  Concrete inputs: a kernel that grants every call and maps at \<^verbatim>\<open>0x10000\<close>; a fresh
  process (descriptors 0 to 2 taken, at most 1024 allowed) on an empty file system; the indeterminate storage
  of a new object; a file of ten bytes, and the states that opening and closing a read
  view of a 4-byte \<^verbatim>\<open>T\<close> on it go through.
\<close>

definition env_ok :: env where
  "env_ok = \<lparr>open_ok = True, fstat_ok = True, ftruncate_ok = True, mmap_ok = True,
             mmap_addr = 65536, madvise_ret = 0, munmap_ok = True\<rparr>"

definition std_fds :: "int \<rightharpoonup> path" where
  "std_fds = [0 \<mapsto> ''/dev/tty'', 1 \<mapsto> ''/dev/tty'', 2 \<mapsto> ''/dev/tty'']"

definition os_boot :: os_state where
  "os_boot = \<lparr>files = Map.empty, fd_table = std_fds, fd_limit = 1024, regions = [],
              advised = []\<rparr>"

definition raw_view :: mm_view where
  "raw_view = \<lparr>m_fd = 7, m_size = 99, m_data = 12345\<rparr>"

definition os_ten_bytes :: os_state where
  "os_ten_bytes = os_boot\<lparr>files := [''data.bin'' \<mapsto> [1, 2, 3, 4, 5, 6, 7, 8, 9, 10]]\<rparr>"

definition view_mapped :: mm_view where
  "view_mapped = \<lparr>m_fd = 3, m_size = 10, m_data = 65536\<rparr>"

definition os_mapped :: os_state where
  "os_mapped = os_ten_bytes\<lparr>fd_table := std_fds(3 \<mapsto> ''data.bin''),
      regions := [\<lparr>r_base = 65536, r_len = 10, r_write = False, r_file = ''data.bin''\<rparr>],
      advised := [(65536, 2, 0)]\<rparr>"

definition os_unmapped :: os_state where
  "os_unmapped = os_mapped\<lparr>fd_table := std_fds(3 := None), regions := []\<rparr>"

text \<open>
  Kernels that refuse \<^verbatim>\<open>munmap\<close>, \<^verbatim>\<open>open\<close> or \<^verbatim>\<open>mmap\<close>; the states after
  \<^verbatim>\<open>mmap\<close> was refused while opening a read view on the ten-byte file; the states
  after a write view of a 2-byte \<^verbatim>\<open>T\<close> has been opened with \<^verbatim>\<open>n = 2^63 + 1\<close>
  elements.
\<close>

definition env_no_munmap :: env where
  "env_no_munmap = env_ok\<lparr>munmap_ok := False\<rparr>"

definition env_no_open :: env where
  "env_no_open = env_ok\<lparr>open_ok := False\<rparr>"

definition env_no_mmap :: env where
  "env_no_mmap = env_ok\<lparr>mmap_ok := False\<rparr>"

definition view_failed :: mm_view where
  "view_failed = \<lparr>m_fd = 3, m_size = 10, m_data = - 1\<rparr>"

definition os_leaked :: os_state where
  "os_leaked = os_ten_bytes\<lparr>fd_table := std_fds(3 \<mapsto> ''data.bin'')\<rparr>"

definition view_wrapped :: mm_view where
  "view_wrapped = \<lparr>m_fd = 3, m_size = 2, m_data = 65536\<rparr>"

definition os_wrapped :: os_state where
  "os_wrapped = os_boot\<lparr>files := [''wrap.bin'' \<mapsto> [0, 0]],
      fd_table := std_fds(3 \<mapsto> ''wrap.bin''),
      regions := [\<lparr>r_base = 65536, r_len = 2, r_write = True, r_file = ''wrap.bin''\<rparr>]\<rparr>"

text \<open>
  A kernel that refuses \<^verbatim>\<open>ftruncate\<close>; four values of a 4-byte integer type (10, 20,
  30, 40, little-endian); and the states of the scenario that opens a write view for
  four elements on a fresh path, writes the values, closes, and reopens the path as a
  read view.
\<close>

definition env_no_ftruncate :: env where
  "env_no_ftruncate = env_ok\<lparr>ftruncate_ok := False\<rparr>"

definition four_values :: "byte list list" where
  "four_values = [[10, 0, 0, 0], [20, 0, 0, 0], [30, 0, 0, 0], [40, 0, 0, 0]]"

definition view_sink :: mm_view where
  "view_sink = \<lparr>m_fd = 3, m_size = 16, m_data = 65536\<rparr>"

definition os_sink :: os_state where
  "os_sink = os_boot\<lparr>files := [''out.bin'' \<mapsto> [0, 0, 0, 0, 0, 0, 0, 0, 0, 0, 0, 0, 0, 0, 0, 0]],
      fd_table := std_fds(3 \<mapsto> ''out.bin''),
      regions := [\<lparr>r_base = 65536, r_len = 16, r_write = True, r_file = ''out.bin''\<rparr>]\<rparr>"

definition os_short :: os_state where
  "os_short = os_sink\<lparr>files := [''out.bin'' \<mapsto> []]\<rparr>"

definition os_written :: os_state where
  "os_written = os_sink\<lparr>files :=
      [''out.bin'' \<mapsto> [10, 0, 0, 0, 20, 0, 0, 0, 30, 0, 0, 0, 40, 0, 0, 0]]\<rparr>"

definition os_flushed :: os_state where
  "os_flushed = os_written\<lparr>fd_table := std_fds(3 := None), regions := []\<rparr>"

definition view_reread :: mm_view where
  "view_reread = \<lparr>m_fd = 3, m_size = 16, m_data = 65536\<rparr>"

definition os_reread :: os_state where
  "os_reread = os_flushed\<lparr>fd_table := std_fds(3 \<mapsto> ''out.bin''),
      regions := [\<lparr>r_base = 65536, r_len = 16, r_write = False, r_file = ''out.bin''\<rparr>],
      advised := [(65536, 4, 0)]\<rparr>"

text \<open>
  The same scenario with the values assigned through the iterator of the write view: the
  file keeps its sixteen zero bytes, and the read view yields four zero elements.
\<close>

definition zero_values :: "byte list list" where
  "zero_values = [[0, 0, 0, 0], [0, 0, 0, 0], [0, 0, 0, 0], [0, 0, 0, 0]]"

definition os_sink_closed :: os_state where
  "os_sink_closed = os_sink\<lparr>fd_table := std_fds(3 := None), regions := []\<rparr>"

definition os_zero_reread :: os_state where
  "os_zero_reread = os_sink_closed\<lparr>fd_table := std_fds(3 \<mapsto> ''out.bin''),
      regions := [\<lparr>r_base = 65536, r_len = 16, r_write = False, r_file = ''out.bin''\<rparr>],
      advised := [(65536, 4, 0)]\<rparr>"

text \<open>The contents of a file after \<open>ys\<close> has been written at offset \<open>off\<close>.\<close>

definition overwrite :: "nat \<Rightarrow> 'a list \<Rightarrow> 'a list \<Rightarrow> 'a list" where
  "overwrite off ys bs = take off bs @ ys @ drop (off + length ys) bs"

section \<open>What a successful call establishes\<close>

lemma source_open_Inr:
  assumes "source_open sz e p adv os v = (Inr u, os', v')"
  shows "\<exists>bs. files os p = Some bs \<and>
           mmap_addr e \<noteq> 0 \<and> word_of_nat (length bs) \<noteq> (0::size_t) \<and>
           unat (mmap_addr e) + unat (word_of_nat (length bs) :: size_t) < 2 ^ 64 \<and>
           v' = v\<lparr>m_fd := lowest_free_fd (fd_table os) (fd_limit os),
                   m_size := word_of_nat (length bs), m_data := mmap_addr e\<rparr> \<and>
           os' = os\<lparr>fd_table := (fd_table os)
                      (lowest_free_fd (fd_table os) (fd_limit os) \<mapsto> p),
                    regions := \<lparr>r_base = mmap_addr e,
                                 r_len = unat (word_of_nat (length bs) :: size_t),
                                 r_write = False, r_file = p\<rparr> # regions os,
                    advised := (mmap_addr e, word_of_nat (length bs) div sz, adv) # advised os\<rparr>"
  using assms
  by (auto simp: source_open_def sys_open_rdonly_def sys_fstat_def sys_mmap_def
        sys_posix_madvise_def Let_def split: if_splits option.splits prod.splits)

lemma sink_open_Inr:
  assumes "sink_open sz e p n os v = (Inr u, os', v')"
  shows "mmap_addr e \<noteq> 0 \<and> n * sz \<noteq> 0 \<and> unat (mmap_addr e) + unat (n * sz) < 2 ^ 64 \<and>
         v' = v\<lparr>m_fd := lowest_free_fd (fd_table os) (fd_limit os), m_size := n * sz,
                 m_data := mmap_addr e\<rparr> \<and>
         regions os' = \<lparr>r_base = mmap_addr e, r_len = unat (n * sz),
                                 r_write = True, r_file = p\<rparr> # regions os \<and>
         files os' = (files os)(p \<mapsto> (if ftruncate_ok e \<and> 0 \<le> sint (n * sz)
                          then replicate (unat (n * sz)) 0 else []))"
  using assms
  by (auto simp: sink_open_def sys_open_creat_trunc_def sys_ftruncate_def sys_mmap_def
        Let_def split: if_splits option.splits prod.splits)

lemma source_open_Inr_os:
  assumes "source_open sz e p adv os v = (Inr u, os', v')"
  shows "m_size v' \<noteq> 0 \<and> m_data v' \<noteq> 0 \<and> unat (m_data v') + unat (m_size v') < 2 ^ 64 \<and>
         files os' = files os \<and>
         regions os' = \<lparr>r_base = m_data v', r_len = unat (m_size v'),
            r_write = False, r_file = p\<rparr> # regions os \<and>
         advised os' = (m_data v', m_size v' div sz, adv) # advised os"
  using source_open_Inr [OF assms] by auto

lemma source_close_Inr:
  assumes "source_close e os v = (Inr u, os', v')"
  shows "(source_is_open v \<and> v' = source_init v) \<or>
         (\<not> source_is_open v \<and> v' = v \<and> os' = os)"
  using assms
  by (auto simp: source_close_def sys_munmap_def Let_def split: if_splits prod.splits)

lemma sink_close_Inr:
  assumes "sink_close e os v = (Inr u, os', v')"
  shows "(sink_is_open v \<and> v' = sink_init v) \<or>
         (\<not> sink_is_open v \<and> v' = v \<and> os' = os)"
  using assms
  by (auto simp: sink_close_def sys_munmap_def Let_def split: if_splits prod.splits)

lemma source_close_closed:
  "\<not> source_is_open v \<Longrightarrow> source_close e os v = (Inr (), os, v)"
  by (simp add: source_close_def)

lemma sink_close_closed:
  "\<not> sink_is_open v \<Longrightarrow> sink_close e os v = (Inr (), os, v)"
  by (simp add: sink_close_def)

lemma source_init_not_open: "\<not> source_is_open (source_init v)"
  by (simp add: source_init_def source_is_open_def)

lemma sink_init_not_open: "\<not> sink_is_open (sink_init v)"
  by (simp add: sink_init_def sink_is_open_def)

lemma source_init_closed: "source_closed sz (source_init v)"
  by (simp add: source_closed_def source_init_def source_is_open_def source_bytes_def
      source_size_def source_data_def)

lemma sink_init_closed: "sink_closed sz (sink_init v)"
  by (simp add: sink_closed_def sink_init_def sink_is_open_def sink_bytes_def
      sink_size_def sink_data_def)

lemma source_closed_no_elements: "source_closed sz v \<Longrightarrow> source_no_elements sz os v"
  by (simp add: source_closed_def source_no_elements_def source_begin_def source_end_def
      source_iterator_def source_iter_eq_def source_iter_neq_def source_iterate.simps
      source_data_def)

lemma sink_closed_no_elements: "sink_closed sz v \<Longrightarrow> sink_no_elements sz os v"
  by (simp add: sink_closed_def sink_no_elements_def sink_begin_def sink_end_def
      sink_iterator_def sink_iter_eq_def sink_iter_neq_def sink_iterate.simps
      sink_data_def)

section \<open>Mapped elements\<close>

text \<open>
  Element \<open>j\<close> of a mapping lies at \<open>base + j * sizeof(T)\<close>; inside the most recent
  mapping, loads and stores go to the bytes \<open>j * sizeof(T)\<close> onwards of its file.
\<close>

lemma overwrite_length: "off + length ys \<le> length bs \<Longrightarrow> length (overwrite off ys bs) = length bs"
  by (simp add: overwrite_def)

lemma overwrite_overwrite:
  assumes "off + length x \<le> length bs"
  shows "overwrite (off + length x) ys (overwrite off x bs) = overwrite off (x @ ys) bs"
  using assms by (simp add: overwrite_def ac_simps)

lemma overwrite_nil: "off \<le> length bs \<Longrightarrow> overwrite off [] bs = bs"
  by (simp add: overwrite_def)

lemma overwrite_all: "length ys = length bs \<Longrightarrow> overwrite 0 ys bs = ys"
  by (simp add: overwrite_def)

lemma elem_offset:
  fixes sz :: size_t
  assumes "j * unat sz < 2 ^ 64"
  shows "unat (word_of_nat j * sz) = j * unat sz"
proof (cases "unat sz = 0")
  case True
  then show ?thesis by (simp add: unat_eq_0)
next
  case False
  then have "j \<le> j * unat sz" by simp
  with assms have "j < 2 ^ 64" by linarith
  then have "unat (word_of_nat j :: size_t) = j"
    by (simp add: unat_of_nat)
  then show ?thesis
    using assms by (simp add: unat_word_ariths)
qed

lemma elem_addr:
  fixes a :: addr and sz :: size_t
  assumes "unat a + L < 2 ^ 64" and "j * unat sz \<le> L"
  shows "unat (a + word_of_nat j * sz) = unat a + j * unat sz"
proof -
  have "j * unat sz < 2 ^ 64"
    using assms by simp
  then have "unat (word_of_nat j * sz) = j * unat sz"
    by (rule elem_offset)
  then show ?thesis
    using assms by (simp add: unat_word_ariths)
qed

lemma elem_covered:
  fixes sz :: size_t
  assumes "unat (r_base r) + r_len r < 2 ^ 64" and "(j + 1) * unat sz \<le> r_len r"
  shows "covers (r_base r + word_of_nat j * sz) (unat sz) r"
proof -
  have "j * unat sz \<le> r_len r"
    using assms(2) by simp
  from elem_addr [OF assms(1) this] assms(2) show ?thesis
    by (simp add: covers_def)
qed

lemma load_head:
  fixes sz :: size_t
  assumes "regions os = r # rs" and "files os (r_file r) = Some bs"
    and "unat (r_base r) + r_len r < 2 ^ 64" and "(j + 1) * unat sz \<le> r_len r"
    and "(j + 1) * unat sz \<le> length bs"
  shows "load (unat sz) os (r_base r + word_of_nat j * sz) =
           Some (take (unat sz) (drop (j * unat sz) bs))"
proof -
  have le: "j * unat sz \<le> r_len r"
    using assms(4) by simp
  have c: "covers (r_base r + word_of_nat j * sz) (unat sz) r"
    using assms(3,4) by (rule elem_covered)
  show ?thesis
    using assms(1,2,5) c elem_addr [OF assms(3) le]
    by (simp add: load_def)
qed

lemma store_head:
  fixes sz :: size_t
  assumes "regions os = r # rs" and "files os (r_file r) = Some bs"
    and "unat (r_base r) + r_len r < 2 ^ 64" and "(j + 1) * unat sz \<le> r_len r"
    and "length x = unat sz" and "r_write r"
  shows "store os (r_base r + word_of_nat j * sz) x =
           (if (j + 1) * unat sz \<le> length bs
            then Some (os\<lparr>files := (files os)(r_file r \<mapsto> overwrite (j * unat sz) x bs)\<rparr>)
            else None)"
proof -
  have le: "j * unat sz \<le> r_len r"
    using assms(4) by simp
  have c: "covers (r_base r + word_of_nat j * sz) (length x) r"
    using elem_covered [OF assms(3,4)] assms(5) by simp
  show ?thesis
    using assms(1,2,5,6) c elem_addr [OF assms(3) le]
    by (simp add: store_def overwrite_def)
qed
lemma write_elems_head:
  fixes sz :: size_t
  assumes "regions os = r # rs" and "files os (r_file r) = Some bs"
    and "unat (r_base r) + r_len r < 2 ^ 64" and "r_write r"
    and "\<forall>x\<in>set xs. length x = unat sz"
    and "(j + length xs) * unat sz \<le> r_len r"
  shows "write_elems sz os (r_base r + word_of_nat j * sz) xs =
           (if xs = [] \<or> (j + length xs) * unat sz \<le> length bs
            then Some (os\<lparr>files := (files os)
                   (r_file r \<mapsto> overwrite (j * unat sz) (concat xs) bs)\<rparr>)
            else None)"
  using assms
proof (induction xs arbitrary: os bs j)
  case Nil
  have "(files os)(r_file r \<mapsto> bs) = files os"
    using Nil.prems(2) by (simp add: fun_upd_idem)
  moreover have "j * unat sz \<le> length bs \<Longrightarrow> overwrite (j * unat sz) [] bs = bs"
    by (rule overwrite_nil)
  ultimately show ?case
    apply (simp add: overwrite_def)
    done
next
  case (Cons x xs)
  let ?k = "unat sz"
  have lx: "length x = ?k"
    using Cons.prems(5) by simp
  have in_r: "(j + 1) * ?k \<le> r_len r"
    using Cons.prems(6) by (simp add: algebra_simps)
  note st = store_head [OF Cons.prems(1,2,3) in_r lx Cons.prems(4)]
  show ?case
  proof (cases "(j + 1) * ?k \<le> length bs")
    case False
    then have "\<not> (j + length (x # xs)) * ?k \<le> length bs"
      by (simp add: algebra_simps)
    with False st show ?thesis
      by simp
  next
    case True
    let ?bs = "overwrite (j * ?k) x bs"
    let ?os = "os\<lparr>files := (files os)(r_file r \<mapsto> ?bs)\<rparr>"
    have s: "store os (r_base r + word_of_nat j * sz) x = Some ?os"
      using st True by simp
    have next_p: "r_base r + word_of_nat j * sz + sz = r_base r + word_of_nat (Suc j) * sz"
      by (simp add: algebra_simps)
    have len: "length ?bs = length bs"
      using True lx by (simp add: overwrite_length algebra_simps)
    have ih: "write_elems sz ?os (r_base r + word_of_nat (Suc j) * sz) xs =
           (if xs = [] \<or> (Suc j + length xs) * ?k \<le> length ?bs
            then Some (?os\<lparr>files := (files ?os)
                   (r_file r \<mapsto> overwrite (Suc j * ?k) (concat xs) ?bs)\<rparr>)
            else None)"
      using Cons.prems by (intro Cons.IH) simp_all
    have ow: "overwrite (Suc j * ?k) (concat xs) ?bs = overwrite (j * ?k) (concat (x # xs)) bs"
      using overwrite_overwrite [of "j * ?k" x bs "concat xs"] True lx
      by (simp add: algebra_simps)
    show ?thesis
      using s next_p ih ow len True by (simp add: algebra_simps)
  qed
qed
lemma elem_addr_neq:
  fixes a :: addr and sz :: size_t
  assumes "n * unat sz < 2 ^ 64" and "j < n" and "sz \<noteq> 0"
  shows "a + word_of_nat j * sz \<noteq> a + word_of_nat n * sz"
proof
  assume "a + word_of_nat j * sz = a + word_of_nat n * sz"
  then have "unat (word_of_nat j * sz) = unat (word_of_nat n * sz)"
    by simp
  moreover have "j * unat sz < 2 ^ 64"
    using assms(1,2) by (meson le_less_trans less_imp_le_nat mult_le_mono1)
  ultimately have "j * unat sz = n * unat sz"
    using assms(1) by (simp add: elem_offset)
  then show False
    using assms(2,3) by (simp add: unat_eq_0)
qed

lemma source_iterate_head:
  fixes sz :: size_t
  assumes "regions os = r # rs" and "files os (r_file r) = Some bs"
    and "unat (r_base r) + r_len r < 2 ^ 64"
    and "n * unat sz \<le> r_len r" and "n * unat sz \<le> length bs" and "sz \<noteq> 0"
    and "j \<le> n"
  shows "source_iterate sz os \<lparr>m_ptr = r_base r + word_of_nat j * sz\<rparr>
           \<lparr>m_ptr = r_base r + word_of_nat n * sz\<rparr> =
         Some (map (\<lambda>i. take (unat sz) (drop (i * unat sz) bs)) [j..<n])"
  using assms(7)
proof (induction "n - j" arbitrary: j)
  case 0
  then show ?case
    by (simp add: source_iterate.simps source_iter_neq_def source_iter_eq_def)
next
  case (Suc d)
  then have jn: "j < n" and d: "d = n - Suc j" and le: "Suc j \<le> n"
    by simp_all
  let ?k = "unat sz"
  have nk: "n * ?k < 2 ^ 64"
    using assms(3,4) by simp
  have ne: "r_base r + word_of_nat j * sz \<noteq> r_base r + word_of_nat n * sz"
    using nk jn assms(6) by (rule elem_addr_neq)
  have "(j + 1) * ?k \<le> n * ?k"
    using le by (simp del: mult_Suc)
  then have in_r: "(j + 1) * ?k \<le> r_len r" and in_f: "(j + 1) * ?k \<le> length bs"
    using assms(4,5) by simp_all
  have ld: "source_deref sz os \<lparr>m_ptr = r_base r + word_of_nat j * sz\<rparr> =
              Some (take ?k (drop (j * ?k) bs))"
    using load_head [OF assms(1,2,3) in_r in_f] by (simp add: source_deref_def)
  have inc: "source_incr sz \<lparr>m_ptr = r_base r + word_of_nat j * sz\<rparr> =
               \<lparr>m_ptr = r_base r + word_of_nat (Suc j) * sz\<rparr>"
    by (simp add: source_incr_def algebra_simps)
  have ih: "source_iterate sz os \<lparr>m_ptr = r_base r + word_of_nat (Suc j) * sz\<rparr>
           \<lparr>m_ptr = r_base r + word_of_nat n * sz\<rparr> =
         Some (map (\<lambda>i. take ?k (drop (i * ?k) bs)) [Suc j..<n])"
    using d le by (rule Suc.hyps(1))
  have "[j..<n] = j # [Suc j..<n]"
    using jn by (rule upt_conv_Cons)
  then show ?case
    using ne ld inc ih
    by (subst source_iterate.simps) (simp add: source_iter_neq_def source_iter_eq_def)
qed

lemma chunks_concat:
  assumes "\<forall>x\<in>set xs. length x = k"
  shows "map (\<lambda>i. take k (drop (i * k) (concat xs))) [0..<length xs] = xs"
  using assms
proof (induction xs)
  case Nil
  then show ?case by simp
next
  case (Cons x xs)
  have lx: "length x = k"
    using Cons.prems by simp
  have "map (\<lambda>i. take k (drop (i * k) (concat (x # xs)))) [0..<length (x # xs)] =
        take k (concat (x # xs)) #
        map (\<lambda>i. take k (drop (Suc i * k) (concat (x # xs)))) [0..<length xs]"
    by (simp add: upt_conv_Cons map_Suc_upt [symmetric] del: upt_Suc)
  also have "take k (concat (x # xs)) = x"
    using lx by simp
  also have "map (\<lambda>i. take k (drop (Suc i * k) (concat (x # xs)))) [0..<length xs] =
             map (\<lambda>i. take k (drop (i * k) (concat xs))) [0..<length xs]"
    using lx by simp
  also have "\<dots> = xs"
    using Cons by simp
  finally show ?case .
qed
lemma length_concat_uniform:
  "\<forall>x\<in>set xs. length x = k \<Longrightarrow> length (concat xs) = length xs * k"
  by (induction xs) simp_all

lemma sink_close_files: "sink_close e os v = (res, os', v') \<Longrightarrow> files os' = files os"
  by (auto simp: sink_close_def sys_munmap_def sys_close_def Let_def
      split: if_splits prod.splits)

lemma source_close_files: "source_close e os v = (res, os', v') \<Longrightarrow> files os' = files os"
  by (auto simp: source_close_def sys_munmap_def sys_close_def Let_def
      split: if_splits prod.splits)

lemma source_open_Inr_size:
  assumes "source_open sz e p adv os v = (Inr u, os', v')" and "files os p = Some bs"
  shows "m_size v' = word_of_nat (length bs)"
  using source_open_Inr [OF assms(1)] assms(2) by auto

lemma size_of_whole:
  fixes sz :: size_t
  assumes "n * unat sz < 2 ^ 64" and "sz \<noteq> 0"
  shows "word_of_nat (n * unat sz) div sz = word_of_nat n"
proof -
  have k: "0 < unat sz"
    using assms(2) by (simp add: unat_gt_0)
  then have "n \<le> n * unat sz"
    by simp
  with assms(1) have n: "n < 2 ^ 64"
    by linarith
  have "word_of_nat (n * unat sz) = word_of_nat n * sz"
    by simp
  then have "unat (word_of_nat (n * unat sz) div sz) = n * unat sz div unat sz"
    using elem_offset [OF assms(1)] by (simp only: unat_div)
  then have "unat (word_of_nat (n * unat sz) div sz) = n"
    using k by simp
  moreover have "unat (word_of_nat n :: size_t) = n"
    using n by (simp add: unat_of_nat)
  ultimately show ?thesis
    by (simp add: word_unat_eq_iff)
qed

text \<open>
  When \<^verbatim>\<open>ftruncate\<close> is granted and \<^verbatim>\<open>n * sizeof(T)\<close> fits \<^verbatim>\<open>off_t\<close>, a successful
  \<^verbatim>\<open>file_sink::open\<close> leaves a file of exactly that many zero bytes, \<^verbatim>\<open>size()\<close> is
  \<open>n\<close>, and every element reads as zeros.
\<close>

lemma sint_nonneg:
  fixes w :: size_t
  assumes "unat w < 2 ^ 63"
  shows "0 \<le> sint w"
proof -
  have "int (unat w) < int (2 ^ 63)"
    using assms by (simp only: of_nat_less_iff)
  then have hi: "uint w < 2 ^ 63"
    by simp
  have "- (2 ^ 63) \<le> (0::int)"
    by simp
  also have "0 \<le> uint w"
    by simp
  finally have self: "signed_take_bit 63 (uint w) = uint w"
    using hi by (rule signed_take_bit_int_eq_self)
  have n: "LENGTH(64) - Suc 0 = 63"
    by simp
  have "sint w = signed_take_bit (LENGTH(64) - Suc 0) (uint w)"
    by (rule sint_uint)
  then have "sint w = uint w"
    by (simp only: n self)
  then show ?thesis
    by (simp only: uint_ge_0)
qed

lemma sink_open_resized:
  assumes o: "sink_open sz e p n os v = (Inr (), os', v')"
    and t: "ftruncate_ok e"
    and small: "unat n * unat sz < 2 ^ 63"
  shows "files os' p = Some (replicate (unat n * unat sz) 0) \<and>
         sink_size sz v' = n \<and>
         (\<forall>j<unat n. sink_deref sz os' (sink_iterator sz (sink_data v') (word_of_nat j)) =
            Some (replicate (unat sz) 0))"
proof -
  let ?k = "unat sz"
  have lt: "unat n * ?k < 2 ^ 64"
    using small by simp
  then have bytes: "unat (n * sz) = unat n * ?k"
    using unat_mult_lem [of n sz] by simp
  note f = sink_open_Inr [OF o]
  have pos: "0 \<le> sint (n * sz)"
    using small bytes by (intro sint_nonneg) simp
  have whole: "files os' p = Some (replicate (unat n * ?k) 0)"
    using f t pos bytes by simp
  have sz: "sz \<noteq> 0"
    using f by auto
  have "word_of_nat (unat n * ?k) div sz = (word_of_nat (unat n) :: size_t)"
    using lt sz by (rule size_of_whole)
  then have size: "sink_size sz v' = n"
    using f by (simp add: sink_size_def)
  let ?R = "\<lparr>r_base = mmap_addr e, r_len = unat n * ?k, r_write = True, r_file = p\<rparr>"
  have regs: "regions os' = ?R # regions os"
    using f bytes by simp
  have whole': "files os' (r_file ?R) = Some (replicate (unat n * ?k) 0)"
    using whole by simp
  have nowrap: "unat (r_base ?R) + r_len ?R < 2 ^ 64"
    using f bytes by simp
  have "sink_deref sz os' (sink_iterator sz (sink_data v') (word_of_nat j)) =
          Some (replicate ?k 0)" if j: "j < unat n" for j
  proof -
    have "(j + 1) * ?k \<le> unat n * ?k"
      using j by (intro mult_le_mono1) simp
    then have in_r: "(j + 1) * ?k \<le> r_len ?R"
      and in_f: "(j + 1) * ?k \<le> length (replicate (unat n * ?k) (0::byte))"
      by simp_all
    have "j * ?k + ?k \<le> unat n * ?k"
      using in_r by simp
    then have "take ?k (drop (j * ?k) (replicate (unat n * ?k) (0::byte))) = replicate ?k 0"
      by (simp add: min_def)
    then show ?thesis
      using load_head [OF regs whole' nowrap in_r in_f] f
      by (simp add: sink_deref_def sink_iterator_def sink_data_def)
  qed
  then show ?thesis
    using whole size by simp
qed

text \<open>
  After a successful \<^verbatim>\<open>file_sink::open\<close> whose \<^verbatim>\<open>ftruncate\<close> was granted, writing the
  \<open>n\<close> values through the mapping does not fault.
\<close>

lemma write_elems_succeeds:
  assumes elems: "\<forall>x\<in>set xs. length x = unat sz"
    and small: "length xs * unat sz < 2 ^ 63"
    and wo: "sink_open sz e p (word_of_nat (length xs)) os v = (Inr (), os1, w1)"
    and t: "ftruncate_ok e"
  shows "\<exists>os2. write_elems sz os1 (sink_data w1) xs = Some os2"
proof -
  let ?n = "length xs" and ?k = "unat sz"
  let ?R = "\<lparr>r_base = mmap_addr e, r_len = ?n * ?k, r_write = True, r_file = p\<rparr>"
  have fits: "?n * ?k < 2 ^ 64"
    using small by simp
  then have bytes: "unat (word_of_nat ?n * sz) = ?n * ?k"
    by (rule elem_offset)
  note o = sink_open_Inr [OF wo]
  have pos: "0 \<le> sint (word_of_nat ?n * sz)"
    using small bytes by (intro sint_nonneg) simp
  have data: "sink_data w1 = r_base ?R + word_of_nat 0 * sz"
    using o by (simp add: sink_data_def)
  have regs: "regions os1 = ?R # regions os"
    using o bytes by simp
  have file0: "files os1 (r_file ?R) = Some (replicate (?n * ?k) 0)"
    using o bytes t pos by simp
  have nowrap: "unat (r_base ?R) + r_len ?R < 2 ^ 64"
    using o bytes by simp
  have "write_elems sz os1 (r_base ?R + word_of_nat 0 * sz) xs =
          (if xs = [] \<or> (0 + ?n) * ?k \<le> length (replicate (?n * ?k) (0::byte))
           then Some (os1\<lparr>files := (files os1)
                  (r_file ?R \<mapsto> overwrite (0 * ?k) (concat xs) (replicate (?n * ?k) 0))\<rparr>)
           else None)"
    using regs file0 nowrap _ elems by (rule write_elems_head) simp_all
  then show ?thesis
    using data by simp
qed

text \<open>
  Assigning through the iterator of a write view never changes the kernel state, whatever
  the values and wherever the iterator stands.
\<close>

lemma sink_write_iter_noop:
  "sink_write_iter sz os it xs = Some (os', it') \<Longrightarrow> os' = os"
proof (induction xs arbitrary: it)
  case Nil
  then show ?case by simp
next
  case (Cons x xs)
  then show ?case
    by (auto simp: sink_assign_deref_def split: option.splits)
qed

text \<open>
  \<^verbatim>\<open>file_sink::open\<close> with an element count of 0 never returns normally: \<^verbatim>\<open>mmap\<close>
  refuses the length 0.
\<close>

lemma sink_open_zero_elements:
  "fst (sink_open sz e p 0 os v) \<noteq> Inr ()"
  by (simp add: sink_open_def sys_mmap_def Let_def split_def)

text \<open>
  A failure of \<^verbatim>\<open>open\<close> after the descriptor was obtained leaves the descriptor in the
  view: \<^verbatim>\<open>is_open()\<close> is true.
\<close>

lemma open_failure_keeps_descriptor:
  "source_open sz e p adv os v = (Inl err, os', v') \<Longrightarrow>
     err \<noteq> runtime_error ''cannot open file'' \<Longrightarrow> source_is_open v'"
  "sink_open sz e p n os v = (Inl err, os', v') \<Longrightarrow>
     err \<noteq> runtime_error ''cannot open file'' \<Longrightarrow> sink_is_open v'"
  by (auto simp: source_open_def sink_open_def sys_open_rdonly_def sys_open_creat_trunc_def
      source_is_open_def sink_is_open_def Let_def split_def
      split: if_splits option.splits)

subsection \<open>The examples, evaluated\<close>

lemma lowest_free_fd_eq:
  assumes "k < limit" and "tbl (int k) = None" and "\<forall>j<k. tbl (int j) \<noteq> None"
  shows "lowest_free_fd tbl limit = int k"
proof -
  have "find (\<lambda>k. tbl (int k) = None) [0..<limit] = Some k"
    using assms by (auto simp: find_Some_iff intro!: exI [of _ k])
  then show ?thesis
    by (simp add: lowest_free_fd_def)
qed

lemma lowest_free_fd_examples:
  "lowest_free_fd std_fds 1024 = 3"
  "lowest_free_fd (std_fds(3 := None)) 1024 = 3"
proof -
  have "\<forall>j<3. std_fds (int j) \<noteq> None"
    by (auto simp: std_fds_def less_Suc_eq numeral_3_eq_3)
  then show "lowest_free_fd std_fds 1024 = 3" "lowest_free_fd (std_fds(3 := None)) 1024 = 3"
    using lowest_free_fd_eq [of 3 1024 std_fds]
      lowest_free_fd_eq [of 3 1024 "std_fds(3 := None)"]
    by (simp_all add: std_fds_def)
qed

lemma source_open_example:
  "source_open 4 env_ok ''data.bin'' advice_normal os_ten_bytes (file_source raw_view) =
     (Inr (), os_mapped, view_mapped)"
  by (simp add: source_open_def sys_open_rdonly_def lowest_free_fd_examples sys_fstat_def sys_mmap_def
      sys_posix_madvise_def env_ok_def os_ten_bytes_def os_boot_def file_source_def
      source_init_def raw_view_def os_mapped_def view_mapped_def advice_normal_def)

lemma source_close_example:
  "source_close env_ok os_mapped view_mapped = (Inr (), os_unmapped, source_init view_mapped)"
  by (simp add: source_close_def source_is_open_def sys_munmap_def sys_close_def env_ok_def
      view_mapped_def os_mapped_def os_unmapped_def)

lemma sink_close_example:
  "sink_close env_ok os_mapped view_mapped = (Inr (), os_unmapped, sink_init view_mapped)"
  by (simp add: sink_close_def sink_is_open_def sys_munmap_def sys_close_def env_ok_def
      view_mapped_def os_mapped_def os_unmapped_def)

lemma close_refused_example:
  "source_close env_no_munmap os_mapped view_mapped =
     (Inl (runtime_error ''munmap failed when closing file_source''), os_mapped, view_mapped)"
  "sink_close env_no_munmap os_mapped view_mapped =
     (Inl (runtime_error ''munmap failed when closing file_sink''), os_mapped, view_mapped)"
  by (simp_all add: source_close_def sink_close_def source_is_open_def sink_is_open_def
      sys_munmap_def env_no_munmap_def env_ok_def view_mapped_def)

lemma open_refused_example:
  "source_open 4 env_ok ''missing.bin'' advice_normal os_boot (file_source raw_view) =
     (Inl (runtime_error ''cannot open file''), os_boot, file_source raw_view)"
  "sink_open 4 env_no_open ''out.bin'' 4 os_boot (file_sink raw_view) =
     (Inl (runtime_error ''cannot open file''), os_boot, file_sink raw_view)"
  by (simp_all add: source_open_def sink_open_def sys_open_rdonly_def lowest_free_fd_examples
      sys_open_creat_trunc_def env_ok_def env_no_open_def os_boot_def file_source_def
      file_sink_def source_init_def sink_init_def raw_view_def)

lemma replicate_two: "replicate 2 x = [x, x]"
  by (simp add: numeral_2_eq_2)

lemma sink_open_wrapped:
  "sink_open 2 env_ok ''wrap.bin'' 9223372036854775809 os_boot (file_sink raw_view) =
     (Inr (), os_wrapped, view_wrapped)"
  by (simp add: sink_open_def sys_open_creat_trunc_def lowest_free_fd_examples sys_ftruncate_def sys_mmap_def
      env_ok_def os_boot_def file_sink_def sink_init_def raw_view_def os_wrapped_def
      view_wrapped_def replicate_two)

lemma replicate_sixteen:
  "replicate 16 x = [x, x, x, x, x, x, x, x, x, x, x, x, x, x, x, x]"
  by (simp add: numeral_eq_Suc)

lemma sink_open_example:
  "sink_open 4 env_ok ''out.bin'' 4 os_boot (file_sink raw_view) = (Inr (), os_sink, view_sink)"
  by (simp add: sink_open_def sys_open_creat_trunc_def lowest_free_fd_examples sys_ftruncate_def sys_mmap_def
      env_ok_def os_boot_def file_sink_def sink_init_def raw_view_def os_sink_def
      view_sink_def replicate_sixteen)

lemma sink_open_short_example:
  "sink_open 4 env_no_ftruncate ''out.bin'' 4 os_boot (file_sink raw_view) =
     (Inr (), os_short, view_sink)"
  by (simp add: sink_open_def sys_open_creat_trunc_def lowest_free_fd_examples sys_ftruncate_def sys_mmap_def
      env_ok_def env_no_ftruncate_def os_boot_def file_sink_def sink_init_def raw_view_def
      os_sink_def os_short_def view_sink_def)

lemma write_elems_example:
  "write_elems 4 os_sink (sink_data view_sink) four_values = Some os_written"
  by (simp add: store_def covers_def sink_data_def view_sink_def os_sink_def os_boot_def
      four_values_def os_written_def)

lemma sink_close_written_example:
  "sink_close env_ok os_written view_sink = (Inr (), os_flushed, sink_init view_sink)"
  by (simp add: sink_close_def sink_is_open_def sys_munmap_def sys_close_def env_ok_def
      view_sink_def os_written_def os_sink_def os_flushed_def)

lemma source_open_reread_example:
  "source_open 4 env_ok ''out.bin'' advice_normal os_flushed (file_source raw_view) =
     (Inr (), os_reread, view_reread)"
  by (simp add: source_open_def sys_open_rdonly_def lowest_free_fd_examples sys_fstat_def sys_mmap_def
      sys_posix_madvise_def env_ok_def os_flushed_def os_written_def os_sink_def os_boot_def
      file_source_def source_init_def raw_view_def os_reread_def view_reread_def
      advice_normal_def)

lemma sink_deref_example:
  "sink_deref 4 os_sink (sink_begin 4 view_sink) = Some [0, 0, 0, 0]"
  "sink_assign_deref 4 os_sink (sink_begin 4 view_sink) [9, 9, 9, 9] = Some os_sink"
  by (simp_all add: sink_assign_deref_def sink_deref_def sink_begin_def
      sink_iterator_def load_def covers_def view_sink_def os_sink_def)

lemma view_mapped_open: "source_is_open view_mapped" "sink_is_open view_mapped"
  by (simp_all add: source_is_open_def sink_is_open_def view_mapped_def)

section \<open>The closed state\<close>

text \<open>
  C10. A default-constructed view, and a view (open, or fully closed already) on which
  \<^verbatim>\<open>close()\<close> has returned without error, is inert, for the read view and for the
  write view alike: \<^verbatim>\<open>is_open()\<close> is false, \<^verbatim>\<open>bytes()\<close> and \<^verbatim>\<open>size()\<close> are 0,
  \<^verbatim>\<open>data()\<close> is null, \<^verbatim>\<open>begin()\<close> equals \<^verbatim>\<open>end()\<close>, and the iteration returns the
  empty sequence without touching memory, whatever the kernel state.
\<close>

theorem closed_view_accessors:
  "source_closed sz (file_source raw) \<and> source_no_elements sz os' (file_source raw) \<and>
   sink_closed sz (file_sink raw) \<and> sink_no_elements sz os' (file_sink raw) \<and>
   ((source_is_open v \<or> source_closed sz v) \<and>
    source_close e os v = (Inr (), os1, v1) \<longrightarrow>
      source_closed sz v1 \<and> source_no_elements sz os' v1) \<and>
   ((sink_is_open v \<or> sink_closed sz v) \<and>
    sink_close e os v = (Inr (), os1, v1) \<longrightarrow>
      sink_closed sz v1 \<and> sink_no_elements sz os' v1)"
proof (intro conjI impI)
  show "source_closed sz (file_source raw)"
    unfolding file_source_def by (rule source_init_closed)
  then show "source_no_elements sz os' (file_source raw)"
    by (rule source_closed_no_elements)
  show "sink_closed sz (file_sink raw)"
    unfolding file_sink_def by (rule sink_init_closed)
  then show "sink_no_elements sz os' (file_sink raw)"
    by (rule sink_closed_no_elements)
next
  assume a: "(source_is_open v \<or> source_closed sz v) \<and>
    source_close e os v = (Inr (), os1, v1)"
  then have "v1 = source_init v \<or> (v1 = v \<and> source_closed sz v)"
    using source_close_Inr [of e os v "()" os1 v1] by blast
  then show c: "source_closed sz v1"
    by (auto simp: source_init_closed)
  then show "source_no_elements sz os' v1"
    by (rule source_closed_no_elements)
next
  assume a: "(sink_is_open v \<or> sink_closed sz v) \<and>
    sink_close e os v = (Inr (), os1, v1)"
  then have "v1 = sink_init v \<or> (v1 = v \<and> sink_closed sz v)"
    using sink_close_Inr [of e os v "()" os1 v1] by blast
  then show c: "sink_closed sz v1"
    by (auto simp: sink_init_closed)
  then show "sink_no_elements sz os' v1"
    by (rule sink_closed_no_elements)
qed

theorem closed_view_accessors_witness:
  "source_is_open view_mapped \<and>
   source_close env_ok os_mapped view_mapped = (Inr (), os_unmapped, source_init view_mapped) \<and>
   source_closed 4 (source_init view_mapped) \<and>
   source_no_elements 4 os_unmapped (source_init view_mapped) \<and>
   sink_is_open view_mapped \<and>
   sink_close env_ok os_mapped view_mapped = (Inr (), os_unmapped, sink_init view_mapped) \<and>
   sink_closed 4 (sink_init view_mapped) \<and>
   sink_no_elements 4 os_unmapped (sink_init view_mapped)"
  using closed_view_accessors [of 4 raw_view os_unmapped view_mapped env_ok os_mapped
      os_unmapped "source_init view_mapped"]
    closed_view_accessors [of 4 raw_view os_unmapped view_mapped env_ok os_mapped
      os_unmapped "sink_init view_mapped"]
  by (simp add: source_close_example sink_close_example view_mapped_open)

text \<open>
  C7. Closing twice in a row: when the first \<^verbatim>\<open>close()\<close> returns without error, the
  view is not open after it (and fully closed if it was open or fully closed before),
  and a second \<^verbatim>\<open>close()\<close> returns without error and changes neither the view nor the
  kernel state, whatever the kernel would have answered; so the view is closed after
  both calls. The same for the read view and the write view.
\<close>

theorem close_twice:
  "(source_close e1 os v = (Inr (), os1, v1) \<longrightarrow>
      \<not> source_is_open v1 \<and>
      (source_is_open v \<or> source_closed sz v \<longrightarrow> source_closed sz v1) \<and>
      source_close e2 os1 v1 = (Inr (), os1, v1)) \<and>
   (sink_close e1 os v = (Inr (), os1, v1) \<longrightarrow>
      \<not> sink_is_open v1 \<and>
      (sink_is_open v \<or> sink_closed sz v \<longrightarrow> sink_closed sz v1) \<and>
      sink_close e2 os1 v1 = (Inr (), os1, v1))"
proof (intro conjI impI)
  assume c: "source_close e1 os v = (Inr (), os1, v1)"
  show n: "\<not> source_is_open v1"
    using source_close_Inr [OF c] source_init_not_open by metis
  show "source_close e2 os1 v1 = (Inr (), os1, v1)"
    using n by (rule source_close_closed)
  assume "source_is_open v \<or> source_closed sz v"
  then show "source_closed sz v1"
    using source_close_Inr [OF c] source_init_closed by metis
next
  assume c: "sink_close e1 os v = (Inr (), os1, v1)"
  show n: "\<not> sink_is_open v1"
    using sink_close_Inr [OF c] sink_init_not_open by metis
  show "sink_close e2 os1 v1 = (Inr (), os1, v1)"
    using n by (rule sink_close_closed)
  assume "sink_is_open v \<or> sink_closed sz v"
  then show "sink_closed sz v1"
    using sink_close_Inr [OF c] sink_init_closed by metis
qed

theorem close_twice_witness:
  "source_close env_ok os_mapped view_mapped = (Inr (), os_unmapped, source_init view_mapped) \<and>
   source_is_open view_mapped \<and>
   source_closed 4 (source_init view_mapped) \<and>
   source_close env_ok os_unmapped (source_init view_mapped) =
     (Inr (), os_unmapped, source_init view_mapped) \<and>
   sink_close env_ok os_mapped view_mapped = (Inr (), os_unmapped, sink_init view_mapped) \<and>
   sink_is_open view_mapped \<and>
   sink_closed 4 (sink_init view_mapped) \<and>
   sink_close env_ok os_unmapped (sink_init view_mapped) =
     (Inr (), os_unmapped, sink_init view_mapped)"
  using close_twice [of env_ok os_mapped view_mapped os_unmapped "source_init view_mapped"
      4 env_ok]
    close_twice [of env_ok os_mapped view_mapped os_unmapped "sink_init view_mapped"
      4 env_ok]
  by (simp add: source_close_example sink_close_example view_mapped_open)

section \<open>Sizes\<close>

text \<open>
  C6. After a read view has been opened without error on a file of \<open>length bs\<close>
  bytes (a size that fits \<^verbatim>\<open>size_t\<close>), \<^verbatim>\<open>bytes()\<close> is that length; and for any view
  \<open>w\<close>, open or not, read or write, \<^verbatim>\<open>size()\<close> is \<^verbatim>\<open>bytes() / sizeof(T)\<close> rounded
  down, so that a trailing partial element is not counted.
\<close>

theorem bytes_and_size:
  assumes "source_open sz e p adv os v = (Inr (), os', v')"
    and "files os p = Some bs"
    and "length bs < 2 ^ 64"
  shows "unat (source_bytes v') = length bs \<and>
         unat (source_size sz w) = unat (source_bytes w) div unat sz \<and>
         unat (sink_size sz w) = unat (sink_bytes w) div unat sz"
proof -
  from source_open_Inr [OF assms(1)] assms(2)
  have "m_size v' = word_of_nat (length bs)"
    by auto
  then have "unat (source_bytes v') = length bs"
    using assms(3) by (simp add: source_bytes_def unat_of_nat)
  then show ?thesis
    by (simp add: source_size_def sink_size_def source_bytes_def sink_bytes_def unat_div)
qed

theorem bytes_and_size_witness:
  "source_open 4 env_ok ''data.bin'' advice_normal os_ten_bytes (file_source raw_view) =
     (Inr (), os_mapped, view_mapped) \<and>
   files os_ten_bytes ''data.bin'' = Some [1, 2, 3, 4, 5, 6, 7, 8, 9, 10] \<and>
   unat (source_bytes view_mapped) = 10 \<and>
   unat (source_size 4 view_mapped) = 2 \<and>
   unat (sink_size 4 view_mapped) = 2"
proof -
  have f: "files os_ten_bytes ''data.bin'' = Some [1, 2, 3, 4, 5, 6, 7, 8, 9, 10]"
    by (simp add: os_ten_bytes_def)
  have b: "unat (source_bytes view_mapped) = 10" "unat (sink_bytes view_mapped) = 10"
    by (simp_all add: source_bytes_def sink_bytes_def view_mapped_def)
  show ?thesis
    using bytes_and_size [OF source_open_example f, of view_mapped] f b
    by (simp add: source_open_example)
qed

section \<open>Failures\<close>

text \<open>
  C1, as the claim states it, fails: a closed read view is opened on a file of ten
  bytes and the kernel refuses \<^verbatim>\<open>mmap\<close>. \<^verbatim>\<open>open\<close> throws after the descriptor and
  the size have been stored, and nothing undoes them: afterwards \<^verbatim>\<open>is_open()\<close> is
  true, \<^verbatim>\<open>bytes()\<close> is 10, \<^verbatim>\<open>size()\<close> is 2 and \<^verbatim>\<open>data()\<close> is \<^verbatim>\<open>MAP_FAILED\<close>; the
  descriptor stays in the descriptor table.
\<close>

theorem open_failure_counterexample:
  "source_closed 4 (file_source raw_view) \<and>
   source_open 4 env_no_mmap ''data.bin'' advice_normal os_ten_bytes (file_source raw_view) =
     (Inl (runtime_error ''mmap failed''), os_leaked, view_failed) \<and>
   source_is_open view_failed \<and>
   source_bytes view_failed = 10 \<and>
   source_size 4 view_failed = 2 \<and>
   source_data view_failed = MAP_FAILED"
  by (simp add: source_open_def sys_open_rdonly_def lowest_free_fd_examples sys_fstat_def sys_mmap_def
      env_ok_def env_no_mmap_def os_ten_bytes_def os_boot_def file_source_def source_init_def
      raw_view_def source_is_open_def source_data_def source_bytes_def source_size_def
      source_closed_def view_failed_def os_leaked_def)

text \<open>
  C1, amended. When \<^verbatim>\<open>open\<close> is called on a closed view and throws because the
  file could not be opened (\<^verbatim>\<open>::open\<close> returned -1), the view is still fully closed
  and the kernel state is unchanged, for the read view and for the write view.
\<close>

theorem open_failure_at_first_step:
  "(source_closed sz v \<and>
    source_open sz e p adv os v = (Inl (runtime_error ''cannot open file''), os1, v1) \<longrightarrow>
      source_closed sz v1 \<and> os1 = os) \<and>
   (sink_closed sz v \<and>
    sink_open sz e p n os v = (Inl (runtime_error ''cannot open file''), os1, v1) \<longrightarrow>
      sink_closed sz v1 \<and> os1 = os)"
  by (auto simp: source_open_def sink_open_def sys_open_rdonly_def lowest_free_fd_examples sys_open_creat_trunc_def
      source_closed_def sink_closed_def source_is_open_def sink_is_open_def
      source_bytes_def sink_bytes_def source_size_def sink_size_def source_data_def
      sink_data_def Let_def split: if_splits prod.splits option.splits)

theorem open_failure_at_first_step_witness:
  "source_closed 4 (file_source raw_view) \<and>
   source_open 4 env_ok ''missing.bin'' advice_normal os_boot (file_source raw_view) =
     (Inl (runtime_error ''cannot open file''), os_boot, file_source raw_view) \<and>
   sink_closed 4 (file_sink raw_view) \<and>
   sink_open 4 env_no_open ''out.bin'' 4 os_boot (file_sink raw_view) =
     (Inl (runtime_error ''cannot open file''), os_boot, file_sink raw_view)"
proof -
  have c: "source_closed 4 (file_source raw_view)" "sink_closed 4 (file_sink raw_view)"
    by (simp_all add: file_source_def file_sink_def source_init_closed sink_init_closed)
  show ?thesis
    using open_failure_at_first_step [of 4 "file_source raw_view" env_ok "''missing.bin''"
        advice_normal os_boot os_boot "file_source raw_view" 4]
      open_failure_at_first_step [of 4 "file_sink raw_view" env_no_open "''out.bin''"
        advice_normal os_boot os_boot "file_sink raw_view" 4] c
    by (simp add: open_refused_example)
qed

text \<open>
  C2, as the claim states it, fails: when \<^verbatim>\<open>munmap\<close> is refused, \<^verbatim>\<open>close()\<close> throws
  before the descriptor is closed and before \<^verbatim>\<open>init()\<close>, so the view stays open.
\<close>

theorem close_failure_counterexample:
  "source_close env_no_munmap os_mapped view_mapped =
     (Inl (runtime_error ''munmap failed when closing file_source''), os_mapped, view_mapped) \<and>
   source_is_open view_mapped \<and> \<not> source_closed 4 view_mapped \<and>
   sink_close env_no_munmap os_mapped view_mapped =
     (Inl (runtime_error ''munmap failed when closing file_sink''), os_mapped, view_mapped) \<and>
   sink_is_open view_mapped \<and> \<not> sink_closed 4 view_mapped"
  by (simp add: source_close_def sink_close_def source_is_open_def sink_is_open_def
      sys_munmap_def env_no_munmap_def env_ok_def view_mapped_def source_closed_def
      sink_closed_def)

text \<open>
  C2, amended. When \<^verbatim>\<open>close()\<close> throws, the error is the failed \<^verbatim>\<open>munmap\<close>, the view
  was open, and neither the view nor the kernel state has changed: the view is still
  open, with its descriptor, size and base address.
\<close>

theorem close_failure_keeps_state:
  "(source_close e os v = (Inl err, os1, v1) \<longrightarrow>
      err = runtime_error ''munmap failed when closing file_source'' \<and>
      source_is_open v \<and> v1 = v \<and> os1 = os) \<and>
   (sink_close e os v = (Inl err, os1, v1) \<longrightarrow>
      err = runtime_error ''munmap failed when closing file_sink'' \<and>
      sink_is_open v \<and> v1 = v \<and> os1 = os)"
  by (auto simp: source_close_def sink_close_def sys_munmap_def Let_def
      split: if_splits prod.splits)

theorem close_failure_keeps_state_witness:
  "source_close env_no_munmap os_mapped view_mapped =
     (Inl (runtime_error ''munmap failed when closing file_source''), os_mapped, view_mapped) \<and>
   source_is_open view_mapped \<and>
   sink_close env_no_munmap os_mapped view_mapped =
     (Inl (runtime_error ''munmap failed when closing file_sink''), os_mapped, view_mapped) \<and>
   sink_is_open view_mapped"
  using close_failure_keeps_state [of env_no_munmap os_mapped view_mapped
      "runtime_error ''munmap failed when closing file_source''" os_mapped view_mapped]
    close_failure_keeps_state [of env_no_munmap os_mapped view_mapped
      "runtime_error ''munmap failed when closing file_sink''" os_mapped view_mapped]
  by (simp add: close_refused_example)

section \<open>The advice call\<close>

text \<open>
  C8. When a read view has been opened without error with the hint \<open>adv\<close>, the call
  received by \<^verbatim>\<open>posix_madvise\<close> is (\<^verbatim>\<open>data()\<close>, \<^verbatim>\<open>bytes() / sizeof(T)\<close>, \<open>adv\<close>),
  while the mapping is \<^verbatim>\<open>bytes()\<close> long; for \<^verbatim>\<open>sizeof(T) > 1\<close> the advised length is
  strictly less than the mapped length.
\<close>

theorem advice_length:
  assumes "source_open sz e p adv os v = (Inr (), os', v')"
  shows "advised os' = (source_data v', source_bytes v' div sz, adv) # advised os \<and>
         hd (regions os') = \<lparr>r_base = source_data v', r_len = unat (source_bytes v'),
            r_write = False, r_file = p\<rparr> \<and>
         (1 < unat sz \<longrightarrow> unat (source_bytes v' div sz) < unat (source_bytes v'))"
proof -
  note f = source_open_Inr_os [OF assms]
  have "0 < unat (m_size v')"
    using f by (simp add: unat_gt_0)
  then have "1 < unat sz \<longrightarrow> unat (m_size v' div sz) < unat (m_size v')"
    by (simp add: unat_div)
  then show ?thesis
    using f by (simp add: source_data_def source_bytes_def)
qed

theorem advice_length_witness:
  "source_open 4 env_ok ''data.bin'' advice_normal os_ten_bytes (file_source raw_view) =
     (Inr (), os_mapped, view_mapped) \<and>
   advised os_mapped = [(source_data view_mapped, 2, advice_normal)] \<and>
   r_len (hd (regions os_mapped)) = 10 \<and>
   1 < unat (4 :: size_t) \<and>
   unat (source_bytes view_mapped div 4) < unat (source_bytes view_mapped)"
proof -
  have a: "advised os_ten_bytes = []"
    by (simp add: os_ten_bytes_def os_boot_def)
  have b: "source_bytes view_mapped = 10"
    by (simp add: source_bytes_def view_mapped_def)
  have c: "r_len (hd (regions os_mapped)) = 10"
    by (simp add: os_mapped_def)
  show ?thesis
    using advice_length [OF source_open_example] a b c
    by (simp add: source_open_example)
qed

section \<open>Wrap-around of the byte length\<close>

text \<open>
  C9. When a write view has been opened without error with \<open>n\<close> elements,
  \<^verbatim>\<open>bytes()\<close> and the length of the mapping are \<^verbatim>\<open>n * sizeof(T)\<close> modulo \<open>2^64\<close>;
  and when the product is \<open>2^64\<close> or more, \<^verbatim>\<open>size()\<close> differs from \<open>n\<close>.
\<close>

theorem sink_bytes_wrap:
  assumes "sink_open sz e p n os v = (Inr (), os', v')"
  shows "unat (sink_bytes v') = (unat n * unat sz) mod 2 ^ 64 \<and>
         r_len (hd (regions os')) = (unat n * unat sz) mod 2 ^ 64 \<and>
         (2 ^ 64 \<le> unat n * unat sz \<longrightarrow> sink_size sz v' \<noteq> n)"
proof -
  from sink_open_Inr [OF assms] have
    v': "m_size v' = n * sz" and
    r: "regions os' = \<lparr>r_base = mmap_addr e, r_len = unat (n * sz),
                                 r_write = True, r_file = p\<rparr> # regions os"
    by auto
  have u: "unat (n * sz) = (unat n * unat sz) mod 2 ^ 64"
    by (simp add: unat_word_ariths)
  have "sink_size sz v' \<noteq> n" if big: "2 ^ 64 \<le> unat n * unat sz"
  proof
    assume "sink_size sz v' = n"
    then have "unat n = unat (n * sz) div unat sz"
      using v' by (simp add: sink_size_def unat_div [symmetric])
    then have "unat n * unat sz \<le> unat (n * sz)"
      by (metis div_times_less_eq_dividend)
    moreover have "unat (n * sz) < 2 ^ 64"
      using unsigned_less [of "n * sz"] by simp
    ultimately show False
      using big by simp
  qed
  then show ?thesis
    using v' r u by (simp add: sink_bytes_def)
qed

theorem sink_bytes_wrap_witness:
  "sink_open 2 env_ok ''wrap.bin'' 9223372036854775809 os_boot (file_sink raw_view) =
     (Inr (), os_wrapped, view_wrapped) \<and>
   unat (sink_bytes view_wrapped) = 2 \<and>
   r_len (hd (regions os_wrapped)) = 2 \<and>
   (2::nat) ^ 64 \<le> unat (9223372036854775809 :: size_t) * unat (2 :: size_t) \<and>
   sink_size 2 view_wrapped \<noteq> 9223372036854775809"
  using sink_bytes_wrap [OF sink_open_wrapped]
  by (simp add: sink_open_wrapped)

section \<open>Dereferencing an iterator of a write view\<close>

text \<open>
  C3, as the claim states it, fails: in an open write view of four zeroed 4-byte
  elements, \<^verbatim>\<open>*it\<close> at \<^verbatim>\<open>begin()\<close> is a copy of the first element, and the
  assignment \<^verbatim>\<open>*it = x\<close> leaves the kernel state, hence the element in the mapping, as
  it was.
\<close>

theorem sink_deref_counterexample:
  "sink_is_open view_sink \<and>
   sink_deref 4 os_sink (sink_begin 4 view_sink) = Some [0, 0, 0, 0] \<and>
   sink_assign_deref 4 os_sink (sink_begin 4 view_sink) [9, 9, 9, 9] = Some os_sink"
  by (simp add: sink_is_open_def sink_assign_deref_def sink_deref_def sink_begin_def
      sink_iterator_def load_def covers_def view_sink_def os_sink_def)

text \<open>
  C3, amended. Dereferencing the iterator of a write view yields a copy of the element
  at the cursor, exactly as the iterator of a read view does; an assignment through the
  dereferenced iterator changes nothing in the mapping, and a later dereference yields
  the same element.
\<close>

theorem sink_deref_copy:
  "sink_deref sz os it = source_deref sz os it \<and>
   (sink_assign_deref sz os it x = Some os' \<longrightarrow>
      os' = os \<and> sink_deref sz os' it = sink_deref sz os it)"
  by (simp add: sink_deref_def source_deref_def sink_assign_deref_def split: option.splits)

theorem sink_deref_copy_witness:
  "sink_deref 4 os_sink (sink_begin 4 view_sink) =
     source_deref 4 os_sink (sink_begin 4 view_sink) \<and>
   sink_assign_deref 4 os_sink (sink_begin 4 view_sink) [9, 9, 9, 9] = Some os_sink \<and>
   sink_deref 4 os_sink (sink_begin 4 view_sink) = Some [0, 0, 0, 0]"
  using sink_deref_copy [of 4 os_sink "sink_begin 4 view_sink" "[9, 9, 9, 9]" os_sink]
    sink_deref_example
  by simp

section \<open>The resize of the backing file\<close>

text \<open>
  C5 at a failing input: the kernel refuses \<^verbatim>\<open>ftruncate\<close> while granting the other
  calls. \<^verbatim>\<open>file_sink::open\<close> with \<open>n = 4\<close> and a 4-byte \<^verbatim>\<open>T\<close> returns normally
  and \<^verbatim>\<open>size()\<close> is 4, but the file is empty instead of 16 bytes long, and reading
  the first element faults.
\<close>

theorem sink_open_unchecked_ftruncate:
  "sink_open 4 env_no_ftruncate ''out.bin'' 4 os_boot (file_sink raw_view) =
     (Inr (), os_short, view_sink) \<and>
   sink_size 4 view_sink = 4 \<and>
   files os_short ''out.bin'' = Some [] \<and>
   sink_deref 4 os_short (sink_begin 4 view_sink) = None"
  by (simp add: sink_open_short_example sink_size_def sink_deref_def sink_begin_def
      sink_iterator_def load_def covers_def view_sink_def os_short_def os_sink_def)

section \<open>Round trip\<close>

text \<open>
  C4, as the claim states it (the values written through the write view's iterator),
  fails: a write view is opened for four 4-byte elements on a fresh path, the values 10,
  20, 30, 40 are assigned in order through its iterator, which ends at \<^verbatim>\<open>end()\<close>, the
  view is closed, and the path is reopened as a read view. Each assignment changes a
  temporary copy only, so the file keeps its zero bytes and the iteration of the read view
  yields four zero elements, not the four values.
\<close>

theorem round_trip_iterator_counterexample:
  "sink_open 4 env_ok ''out.bin'' 4 os_boot (file_sink raw_view) =
     (Inr (), os_sink, view_sink) \<and>
   sink_write_iter 4 os_sink (sink_begin 4 view_sink) four_values =
     Some (os_sink, sink_end 4 view_sink) \<and>
   sink_close env_ok os_sink view_sink = (Inr (), os_sink_closed, sink_init view_sink) \<and>
   source_open 4 env_ok ''out.bin'' advice_normal os_sink_closed (file_source raw_view) =
     (Inr (), os_zero_reread, view_reread) \<and>
   source_iterate 4 os_zero_reread (source_begin 4 view_reread) (source_end 4 view_reread) =
     Some zero_values \<and>
   zero_values \<noteq> four_values"
proof -
  have w: "sink_write_iter 4 os_sink (sink_begin 4 view_sink) four_values =
     Some (os_sink, sink_end 4 view_sink)"
    by (simp add: sink_assign_deref_def sink_deref_def sink_incr_def sink_begin_def
        sink_end_def sink_size_def sink_iterator_def load_def covers_def view_sink_def
        os_sink_def os_boot_def four_values_def)
  have c: "sink_close env_ok os_sink view_sink = (Inr (), os_sink_closed, sink_init view_sink)"
    by (simp add: sink_close_def sink_is_open_def sys_munmap_def sys_close_def env_ok_def
        view_sink_def os_sink_def os_sink_closed_def)
  have r: "source_open 4 env_ok ''out.bin'' advice_normal os_sink_closed (file_source raw_view) =
     (Inr (), os_zero_reread, view_reread)"
    by (simp add: source_open_def sys_open_rdonly_def lowest_free_fd_examples sys_fstat_def
        sys_mmap_def sys_posix_madvise_def env_ok_def os_sink_closed_def os_sink_def
        os_boot_def file_source_def source_init_def raw_view_def os_zero_reread_def
        view_reread_def advice_normal_def)
  have i: "source_iterate 4 os_zero_reread (source_begin 4 view_reread)
      (source_end 4 view_reread) = Some zero_values"
    by (simp add: source_iterate.simps source_iter_neq_def source_iter_eq_def
        source_deref_def source_incr_def source_begin_def source_end_def source_size_def
        source_iterator_def load_def covers_def view_reread_def os_zero_reread_def
        os_sink_closed_def os_sink_def os_boot_def zero_values_def)
  have d: "zero_values \<noteq> four_values"
    by (simp add: zero_values_def four_values_def)
  show ?thesis
    using sink_open_example w c r i d by simp
qed

text \<open>
  C4, amended. Let \<open>xs\<close> be \<open>n \<ge> 1\<close> values of \<^verbatim>\<open>T\<close> (each \<^verbatim>\<open>sizeof(T)\<close> bytes;
  together they fit the address space). Open a write view with element count \<open>n\<close> at
  a path, write the values in order through the pointer \<^verbatim>\<open>data()\<close> of the view, close
  the view, and open a read view on the same path: when these steps succeed, under
  whatever kernel decisions and from whatever objects, iterating the read view from
  \<^verbatim>\<open>begin()\<close> to \<^verbatim>\<open>end()\<close> terminates and yields exactly \<open>xs\<close>, in order.
\<close>

theorem round_trip:
  assumes elems: "\<forall>x\<in>set xs. length x = unat sz"
    and nonempty: "xs \<noteq> []"
    and fits: "length xs * unat sz < 2 ^ 64"
    and wo: "sink_open sz e1 p (word_of_nat (length xs)) os v = (Inr (), os1, w1)"
    and wr: "write_elems sz os1 (sink_data w1) xs = Some os2"
    and wc: "sink_close e2 os2 w1 = (Inr (), os3, w2)"
    and ro: "source_open sz e3 p adv os3 r = (Inr (), os4, r1)"
  shows "source_iterate sz os4 (source_begin sz r1) (source_end sz r1) = Some xs"
proof -
  let ?n = "length xs" and ?k = "unat sz"
  let ?R = "\<lparr>r_base = mmap_addr e1, r_len = ?n * ?k, r_write = True, r_file = p\<rparr>"
  let ?bs0 = "if ftruncate_ok e1 \<and> 0 \<le> sint (word_of_nat ?n * sz)
              then replicate (?n * ?k) (0::byte) else []"
  have bytes: "unat (word_of_nat ?n * sz) = ?n * ?k"
    using fits by (rule elem_offset)
  note o = sink_open_Inr [OF wo]
  have nz: "?n * ?k \<noteq> 0"
    using o bytes by (metis unat_eq_0)
  then have sz: "sz \<noteq> 0" and ne: "xs \<noteq> []"
    by (auto simp: unat_eq_0)
  have data: "sink_data w1 = r_base ?R + word_of_nat 0 * sz"
    using o by (simp add: sink_data_def)
  have regs: "regions os1 = ?R # regions os"
    using o bytes by simp
  have file0: "files os1 (r_file ?R) = Some ?bs0"
    using o bytes by simp
  have nowrap: "unat (r_base ?R) + r_len ?R < 2 ^ 64"
    using o bytes by simp
  have "write_elems sz os1 (r_base ?R + word_of_nat 0 * sz) xs =
          (if xs = [] \<or> (0 + ?n) * ?k \<le> length ?bs0
           then Some (os1\<lparr>files := (files os1)
                  (r_file ?R \<mapsto> overwrite (0 * ?k) (concat xs) ?bs0)\<rparr>)
           else None)"
    using regs file0 nowrap _ elems by (rule write_elems_head) simp_all
  with wr data ne have
    long: "?n * ?k \<le> length ?bs0" and
    os2: "os2 = os1\<lparr>files := (files os1)(p \<mapsto> overwrite 0 (concat xs) ?bs0)\<rparr>"
    by (simp_all split: if_splits)
  have len: "length (concat xs) = ?n * ?k"
    using elems by (rule length_concat_uniform)
  have "length ?bs0 \<le> ?n * ?k"
    by simp
  with long len have "length (concat xs) = length ?bs0"
    by linarith
  then have "overwrite 0 (concat xs) ?bs0 = concat xs"
    by (rule overwrite_all)
  then have "files os2 p = Some (concat xs)"
    using os2 by simp
  then have file3: "files os3 p = Some (concat xs)"
    using sink_close_files [OF wc] by simp
  have size: "m_size r1 = word_of_nat (?n * ?k)"
    using source_open_Inr_size [OF ro file3] len by simp
  then have usize: "unat (m_size r1) = ?n * ?k"
    using bytes by simp
  note s = source_open_Inr_os [OF ro]
  let ?S = "\<lparr>r_base = m_data r1, r_len = ?n * ?k, r_write = False, r_file = p\<rparr>"
  have regs4: "regions os4 = ?S # regions os3"
    using s usize by simp
  have file4: "files os4 (r_file ?S) = Some (concat xs)"
    using s file3 by simp
  have nowrap4: "unat (r_base ?S) + r_len ?S < 2 ^ 64"
    using s usize by simp
  have b: "source_begin sz r1 = \<lparr>m_ptr = r_base ?S + word_of_nat 0 * sz\<rparr>"
    by (simp add: source_begin_def source_iterator_def)
  have e: "source_end sz r1 = \<lparr>m_ptr = r_base ?S + word_of_nat ?n * sz\<rparr>"
    using size size_of_whole [OF fits sz]
    by (simp add: source_end_def source_iterator_def source_size_def)
  have "source_iterate sz os4 \<lparr>m_ptr = r_base ?S + word_of_nat 0 * sz\<rparr>
           \<lparr>m_ptr = r_base ?S + word_of_nat ?n * sz\<rparr> =
         Some (map (\<lambda>i. take ?k (drop (i * ?k) (concat xs))) [0..<?n])"
    using regs4 file4 nowrap4 _ _ sz by (rule source_iterate_head) (simp_all add: len)
  then show ?thesis
    using b e chunks_concat [OF elems] by simp
qed
theorem round_trip_witness:
  "sink_open 4 env_ok ''out.bin'' 4 os_boot (file_sink raw_view) =
     (Inr (), os_sink, view_sink) \<and>
   write_elems 4 os_sink (sink_data view_sink) four_values = Some os_written \<and>
   sink_close env_ok os_written view_sink = (Inr (), os_flushed, sink_init view_sink) \<and>
   source_open 4 env_ok ''out.bin'' advice_normal os_flushed (file_source raw_view) =
     (Inr (), os_reread, view_reread) \<and>
   source_iterate 4 os_reread (source_begin 4 view_reread) (source_end 4 view_reread) =
     Some four_values"
proof -
  have l: "length four_values = 4" "\<forall>x\<in>set four_values. length x = unat (4 :: size_t)"
    by (simp_all add: four_values_def)
  have o: "sink_open 4 env_ok ''out.bin'' (word_of_nat (length four_values)) os_boot
             (file_sink raw_view) = (Inr (), os_sink, view_sink)"
    using sink_open_example by (simp add: l)
  have f: "length four_values * unat (4 :: size_t) < 2 ^ 64"
    by (simp add: l)
  have n: "four_values \<noteq> []"
    by (simp add: four_values_def)
  show ?thesis
    using round_trip [OF l(2) n f o write_elems_example sink_close_written_example
        source_open_reread_example]
    by (simp add: sink_open_example write_elems_example sink_close_written_example
        source_open_reread_example)
qed

end
